theory Spec2Isabelle
  imports Main "HOL-Library.Word"
begin

section \<open>Go values shared by the three source files\<close>

text \<open>
  A Go \<open>panic\<close> is a value of the model: every function that can panic returns
  \<open>panic + 'a\<close>, with \<open>Inl\<close> for the panic.
  \<^item> \<open>NilMapAssignment\<close>: the runtime panic "assignment to entry in nil map";
  \<^item> \<open>LogPanic msg\<close>: \<open>log.Panic(msg)\<close>.
\<close>

datatype panic = NilMapAssignment | LogPanic string

text \<open>
  \<open>time.Duration\<close> is a count of nanoseconds. The durations of the source are
  compile-time constants far below \<open>2 ^ 63\<close>, so they are integers here.
\<close>

type_synonym Duration = int

definition Nanosecond :: Duration where
  "Nanosecond = 1"

definition Microsecond :: Duration where
  "Microsecond = 1000 * Nanosecond"

definition Millisecond :: Duration where
  "Millisecond = 1000 * Microsecond"

definition Second :: Duration where
  "Second = 1000 * Millisecond"

section \<open>Envelopes (package loggregator_v2)\<close>

text \<open>
  \<open>loggregator_v2.Value\<close> holds a oneof \<open>Data\<close>: text, a 64-bit integer or a
  double (kept as its 64-bit pattern); \<open>None\<close> is the unset oneof.
\<close>

datatype Value_Data =
    Value_Text string
  | Value_Integer "64 word"
  | Value_Decimal "64 word"

record Value =
  Data :: "Value_Data option"

text \<open>
  A Go map that the code only ranges over (\<open>Envelope.Tags\<close>, \<open>Transponder.tags\<close>,
  both \<open>map[string]string\<close>) is the list of its entries in the order in which the
  \<open>range\<close> loop of this execution visits them; Go leaves that order unspecified, so
  a theorem holds for every order. The keys of a Go map are distinct. A nil map and an
  empty one range alike: both are \<open>[]\<close>.

  The map that the code looks up and assigns (\<open>Envelope.DeprecatedTags\<close>,
  \<open>map[string]*Value\<close>) is a partial function, wrapped in an option: \<open>None\<close> is
  the nil map. Reading a nil map finds no key; assigning to it panics.
\<close>

type_synonym tagmap = "(string \<times> string) list"

type_synonym valuemap = "(string \<rightharpoonup> Value) option"

definition maplookup :: "valuemap \<Rightarrow> string \<Rightarrow> Value option" where
  "maplookup m k = (case m of None \<Rightarrow> None | Some f \<Rightarrow> f k)"

definition mapassign :: "valuemap \<Rightarrow> string \<Rightarrow> Value \<Rightarrow> panic + valuemap" where
  "mapassign m k v =
     (case m of
        None \<Rightarrow> Inl NilMapAssignment
      | Some f \<Rightarrow> Inr (Some (f(k \<mapsto> v))))"

text \<open>
  The envelope: timestamp (int64), source and instance identifiers, the two tag maps and
  the payload oneof (log, counter, gauge, timer, event), which this code never inspects
  and which is therefore a type parameter.
\<close>

record 'p Envelope =
  Timestamp :: "64 word"
  SourceId :: string
  InstanceId :: string
  DeprecatedTags :: valuemap
  Tags :: tagmap
  Message :: 'p

section \<open>The Transponder (src/pkg/egress/v2/transponder.go)\<close>

subsection \<open>addTags\<close>

text \<open>
  First loop of \<open>addTags\<close>: \<open>for k, v := range e.GetTags()\<close> assigns the text value
  of every tag to the deprecated tags.
\<close>

fun moveTags :: "tagmap \<Rightarrow> 'p Envelope \<Rightarrow> panic + 'p Envelope" where
  "moveTags [] e = Inr e"
| "moveTags ((k, v) # kvs) e =
     (case mapassign (DeprecatedTags e) k \<lparr>Data = Some (Value_Text v)\<rparr> of
        Inl p \<Rightarrow> Inl p
      | Inr m \<Rightarrow> moveTags kvs (e\<lparr>DeprecatedTags := m\<rparr>))"

text \<open>
  Second loop: \<open>for k, v := range t.tags\<close> assigns the static tag only when the
  lookup \<open>_, ok := e.DeprecatedTags[k]\<close> finds no entry.
\<close>

fun fillTags :: "tagmap \<Rightarrow> 'p Envelope \<Rightarrow> panic + 'p Envelope" where
  "fillTags [] e = Inr e"
| "fillTags ((k, v) # kvs) e =
     (if maplookup (DeprecatedTags e) k = None
      then (case mapassign (DeprecatedTags e) k \<lparr>Data = Some (Value_Text v)\<rparr> of
              Inl p \<Rightarrow> Inl p
            | Inr m \<Rightarrow> fillTags kvs (e\<lparr>DeprecatedTags := m\<rparr>))
      else fillTags kvs e)"

text \<open>
  \<open>addTags\<close> mutates the envelope behind the pointer; the model returns the envelope
  as it is afterwards. The first argument is \<open>t.tags\<close>.
\<close>

definition addTags :: "tagmap \<Rightarrow> 'p Envelope \<Rightarrow> panic + 'p Envelope" where
  "addTags ttags e =
     (let e1 = (if DeprecatedTags e = None
                then e\<lparr>DeprecatedTags := Some Map.empty\<rparr>
                else e)
      in case moveTags (Tags e1) e1 of
           Inl p \<Rightarrow> Inl p
         | Inr e2 \<Rightarrow> fillTags ttags e2)"

subsection \<open>write\<close>

text \<open>
  Errors of Go's \<open>error\<close> interface. A gRPC status error carries its code; both kinds
  carry the text that \<open>Error()\<close> returns.
\<close>

datatype Code =
    OK | Canceled | Unknown | InvalidArgument | DeadlineExceeded | NotFound
  | AlreadyExists | PermissionDenied | ResourceExhausted | FailedPrecondition
  | Aborted | OutOfRange | Unimplemented | Internal | Unavailable | DataLoss
  | Unauthenticated

datatype go_error = StatusError Code string | ErrorString string

text \<open>
  What \<open>write\<close> acts on: the batches handed to \<open>Writer.Write\<close> so far (oldest
  first) and the two counter metrics. \<open>pulseemitter.CounterMetric.Increment(c uint64)\<close>
  adds \<open>c\<close> to a uint64, so a metric is a 64-bit word and the addition wraps.
\<close>

record 'p egress_world =
  written :: "'p Envelope list list"
  droppedMetric :: "64 word"
  egressMetric :: "64 word"

definition Increment :: "64 word \<Rightarrow> 64 word \<Rightarrow> 64 word" where
  "Increment c m = m + c"

text \<open>
  The Transponder's configuration. The \<open>Writer\<close> is an interface: its answer to a
  batch may depend on the batches written before, and is \<open>None\<close> for a nil error.
\<close>

record 'p Transponder =
  tags :: tagmap
  batchSize :: int
  batchInterval :: Duration
  writer :: "'p Envelope list list \<Rightarrow> 'p Envelope list \<Rightarrow> go_error option"

text \<open>
  \<open>for _, e := range batch { t.addTags(e) }\<close>: the envelopes of the slice, each as
  \<open>addTags\<close> leaves it. The slice itself (its length and order) is not assigned to.
\<close>

fun addTagsAll :: "tagmap \<Rightarrow> 'p Envelope list \<Rightarrow> panic + 'p Envelope list" where
  "addTagsAll ttags [] = Inr []"
| "addTagsAll ttags (e # es) =
     (case addTags ttags e of
        Inl p \<Rightarrow> Inl p
      | Inr e' \<Rightarrow>
          (case addTagsAll ttags es of
             Inl p \<Rightarrow> Inl p
           | Inr es' \<Rightarrow> Inr (e' # es')))"

definition Transponder_write :: "'p Transponder \<Rightarrow> 'p Envelope list \<Rightarrow> 'p egress_world
    \<Rightarrow> panic + 'p egress_world" where
  "Transponder_write t batch w =
     (case addTagsAll (tags t) batch of
        Inl p \<Rightarrow> Inl p
      | Inr batch' \<Rightarrow>
          (let err = writer t (written w) batch';
               w1 = w\<lparr>written := written w @ [batch']\<rparr>
           in if err \<noteq> None
              then Inr (w1\<lparr>droppedMetric :=
                         Increment (of_nat (length batch')) (droppedMetric w1)\<rparr>)
              else Inr (w1\<lparr>egressMetric :=
                         Increment (of_nat (length batch')) (egressMetric w1)\<rparr>)))"

subsection \<open>Start\<close>

text \<open>
  The batcher (package batching) is handed \<open>t.write\<close> and is otherwise opaque to
  \<open>Start\<close>: the loop only calls its \<open>Flush\<close> and \<open>Write\<close>. The actions of the
  loop, in the order in which it performs them, are its observable behaviour.
\<close>

datatype 'p action =
    TryNext
  | BatcherFlush
  | Sleep Duration
  | BatcherWrite "'p Envelope"

text \<open>
  One pass through the body of \<open>for { ... }\<close>. \<open>polled\<close> is what
  \<open>t.nexter.TryNext()\<close> returns: \<open>None\<close> when \<open>ok\<close> is false.
\<close>

definition Start_iteration :: "'p Envelope option \<Rightarrow> 'p action list \<Rightarrow> 'p action list" where
  "Start_iteration polled acts =
     (case polled of
        None \<Rightarrow> acts @ [TryNext, BatcherFlush, Sleep (100 * Millisecond)]
      | Some envelope \<Rightarrow> acts @ [TryNext, BatcherWrite envelope])"

text \<open>
  The loop never ends; what it has done after the polls \<open>polls\<close> (the results of the
  successive calls of \<open>TryNext\<close>) is the fold of the iteration over them.
\<close>

fun Start_polls :: "'p Envelope option list \<Rightarrow> 'p action list \<Rightarrow> 'p action list" where
  "Start_polls [] acts = acts"
| "Start_polls (polled # polls) acts = Start_polls polls (Start_iteration polled acts)"

section \<open>The connector (src/unnamed/part_000: SenderFetcher, package clientpool/v2)\<close>

subsection \<open>The world outside: gRPC, the log, the health registrar\<close>

text \<open>
  Everything \<open>Fetch\<close> does to the outside is an event, appended to the history of
  the world in the order of the calls. A connection is named by the position of its
  \<open>Dial\<close> in the history, a stream by the position of the call that opened it.
\<close>

datatype event =
    Dial string
  | IngressBatchSender nat
  | DopplerIngressBatchSender nat
  | CloseAndRecv nat
  | ConnClose nat
  | HealthInc string
  | HealthDec string
  | LogPrintf string

text \<open>
  The network and the downstream server decide what each gRPC call returns. Their
  answer may depend on everything that happened before, so each is a function of the
  history; \<open>None\<close> is the nil error.
\<close>

record downstream =
  dialResult :: "event list \<Rightarrow> string \<Rightarrow> go_error option"
  ingressBatchSenderResult :: "event list \<Rightarrow> nat \<Rightarrow> go_error option"
  dopplerBatchSenderResult :: "event list \<Rightarrow> nat \<Rightarrow> go_error option"
  closeAndRecvResult :: "event list \<Rightarrow> nat \<Rightarrow> go_error option"
  connCloseResult :: "event list \<Rightarrow> nat \<Rightarrow> go_error option"

record world =
  events :: "event list"
  health :: "string \<Rightarrow> int"

text \<open>
  Modelled from the spec: the implementation behind the \<open>HealthRegistrar\<close> interface
  (package healthendpoint) is not among the sources. The spec describes "named integer
  counters, incremented/decremented by paired lifecycle events", consumed through
  \<open>Inc(name)\<close> and \<open>Dec(name)\<close>: \<open>Inc\<close> adds one to the named counter and
  \<open>Dec\<close> subtracts one. Each call is also an event of the history.
\<close>

definition Inc :: "string \<Rightarrow> world \<Rightarrow> world" where
  "Inc name w = w\<lparr>events := events w @ [HealthInc name],
                  health := (health w)(name := health w name + 1)\<rparr>"

definition Dec :: "string \<Rightarrow> world \<Rightarrow> world" where
  "Dec name w = w\<lparr>events := events w @ [HealthDec name],
                  health := (health w)(name := health w name - 1)\<rparr>"

definition Printf :: "string \<Rightarrow> world \<Rightarrow> world" where
  "Printf line w = w\<lparr>events := events w @ [LogPrintf line]\<rparr>"

datatype ClientConn = ClientConn nat

text \<open>
  A batch-sender stream: the API it speaks (the current \<open>loggregator_v2.Ingress\<close> or
  the deprecated \<open>plumbing.DopplerIngress\<close>), its connection and its own name.
\<close>

datatype API = Current | Deprecated

datatype BatchSenderClient = BatchSenderClient API nat nat

definition grpc_Dial :: "downstream \<Rightarrow> string \<Rightarrow> world \<Rightarrow> (go_error + ClientConn) \<times> world" where
  "grpc_Dial env addr w =
     (let w' = w\<lparr>events := events w @ [Dial addr]\<rparr>
      in case dialResult env (events w) addr of
           Some err \<Rightarrow> (Inl err, w')
         | None \<Rightarrow> (Inr (ClientConn (length (events w))), w'))"

fun IngressClient_BatchSender :: "downstream \<Rightarrow> ClientConn \<Rightarrow> world
    \<Rightarrow> (go_error + BatchSenderClient) \<times> world" where
  "IngressClient_BatchSender env (ClientConn c) w =
     (let w' = w\<lparr>events := events w @ [IngressBatchSender c]\<rparr>
      in case ingressBatchSenderResult env (events w) c of
           Some err \<Rightarrow> (Inl err, w')
         | None \<Rightarrow> (Inr (BatchSenderClient Current c (length (events w))), w'))"

fun DopplerIngressClient_BatchSender :: "downstream \<Rightarrow> ClientConn \<Rightarrow> world
    \<Rightarrow> (go_error + BatchSenderClient) \<times> world" where
  "DopplerIngressClient_BatchSender env (ClientConn c) w =
     (let w' = w\<lparr>events := events w @ [DopplerIngressBatchSender c]\<rparr>
      in case dopplerBatchSenderResult env (events w) c of
           Some err \<Rightarrow> (Inl err, w')
         | None \<Rightarrow> (Inr (BatchSenderClient Deprecated c (length (events w))), w'))"

text \<open>\<open>sender.CloseAndRecv()\<close>: the response is dropped by the caller, the error kept.\<close>

fun BatchSender_CloseAndRecv :: "downstream \<Rightarrow> BatchSenderClient \<Rightarrow> world
    \<Rightarrow> go_error option \<times> world" where
  "BatchSender_CloseAndRecv env (BatchSenderClient api c s) w =
     (closeAndRecvResult env (events w) s, w\<lparr>events := events w @ [CloseAndRecv s]\<rparr>)"

fun ClientConn_Close :: "downstream \<Rightarrow> ClientConn \<Rightarrow> world \<Rightarrow> go_error option \<times> world" where
  "ClientConn_Close env (ClientConn c) w =
     (connCloseResult env (events w) c, w\<lparr>events := events w @ [ConnClose c]\<rparr>)"

text \<open>
  \<open>status.FromError(err)\<close> followed by \<open>s.Code()\<close>: a nil error is the status OK, a
  status error gives its code, both with \<open>ok\<close> true; any other error gives Unknown
  with \<open>ok\<close> false.
\<close>

fun FromError :: "go_error option \<Rightarrow> Code \<times> bool" where
  "FromError None = (OK, True)"
| "FromError (Some (StatusError code msg)) = (code, True)"
| "FromError (Some (ErrorString msg)) = (Unknown, False)"

fun Error :: "go_error \<Rightarrow> string" where
  "Error (StatusError code msg) = msg"
| "Error (ErrorString msg) = msg"

subsection \<open>openStream, Fetch and the decrementing closer\<close>

definition openStream :: "downstream \<Rightarrow> ClientConn \<Rightarrow> world
    \<Rightarrow> (go_error + BatchSenderClient) \<times> world" where
  "openStream env conn w =
     (case IngressClient_BatchSender env conn w of
        (Inl err, w1) \<Rightarrow>
          (Inl (ErrorString (''error establishing ingestor stream to: '' @ Error err)), w1)
      | (Inr sender, w1) \<Rightarrow>
          (case BatchSender_CloseAndRecv env sender w1 of
             (err, w2) \<Rightarrow>
               (case FromError err of
                  (code, ok) \<Rightarrow>
                    if ok \<and> code = Unimplemented
                    then (let w3 = Printf ''failed to open stream, falling back to deprecated API'' w2
                          in case DopplerIngressClient_BatchSender env conn w3 of
                               (Inl err, w4) \<Rightarrow>
                                 (Inl (ErrorString
                                    (''error establishing ingestor stream to: '' @ Error err)), w4)
                             | (Inr sender, w4) \<Rightarrow> (Inr sender, w4))
                    else (case IngressClient_BatchSender env conn w2 of
                            (Inl err, w3) \<Rightarrow>
                              (Inl (ErrorString
                                 (''error establishing ingestor stream to: '' @ Error err)), w3)
                          | (Inr sender, w3) \<Rightarrow> (Inr sender, w3)))))"

text \<open>
  The closer that \<open>Fetch\<close> returns wraps the connection; its \<open>health\<close> field is the
  registrar of the fetcher, the one of the world.
\<close>

datatype decrementingCloser = decrementingCloser ClientConn

text \<open>
  \<open>Fetch\<close> returns Go's triple \<open>(io.Closer, BatchSenderClient, error)\<close>: each
  component is \<open>None\<close> when nil.
\<close>

definition Fetch :: "downstream \<Rightarrow> string \<Rightarrow> world
    \<Rightarrow> (decrementingCloser option \<times> BatchSenderClient option \<times> go_error option) \<times> world" where
  "Fetch env addr w =
     (case grpc_Dial env addr w of
        (Inl err, w1) \<Rightarrow>
          ((None, None,
            Some (ErrorString (''error dialing ingestor stream to '' @ addr @ '': '' @ Error err))),
           w1)
      | (Inr conn, w1) \<Rightarrow>
          (case openStream env conn w1 of
             (Inl err, w2) \<Rightarrow>
               (case ClientConn_Close env conn w2 of
                  (_, w3) \<Rightarrow> ((None, None, Some err), w3))
           | (Inr sender, w2) \<Rightarrow>
               (let w3 = Inc ''dopplerConnections'' w2;
                    w4 = Inc ''dopplerV2Streams'' w3;
                    w5 = Printf (''successfully established a stream to doppler '' @ addr) w4
                in ((Some (decrementingCloser conn), Some sender, None), w5))))"

fun Close :: "downstream \<Rightarrow> decrementingCloser \<Rightarrow> world \<Rightarrow> go_error option \<times> world" where
  "Close env (decrementingCloser conn) w =
     (let w1 = Dec ''dopplerConnections'' w;
          w2 = Dec ''dopplerV2Streams'' w1
      in ClientConn_Close env conn w2)"

subsection \<open>A caller of Fetch\<close>

text \<open>
  The connection manager that calls \<open>Fetch\<close> is not among the sources. A caller is
  any sequence of two operations: fetch a sender for an address, keeping the closer
  when the fetch succeeds, and close one of the closers it holds, which it then lets go
  of (so that no closer is closed twice). \<open>OpClose i\<close> names the closer by its position
  among those held; it does nothing when there is none.
\<close>

datatype caller_op = OpFetch string | OpClose nat

fun caller_step :: "downstream \<Rightarrow> caller_op \<Rightarrow> world \<times> decrementingCloser list
    \<Rightarrow> world \<times> decrementingCloser list" where
  "caller_step env (OpFetch addr) (w, held) =
     (case Fetch env addr w of
        ((Some closer, _, _), w') \<Rightarrow> (w', held @ [closer])
      | ((None, _, _), w') \<Rightarrow> (w', held))"
| "caller_step env (OpClose i) (w, held) =
     (if i < length held
      then (snd (Close env (held ! i) w), take i held @ drop (Suc i) held)
      else (w, held))"

fun caller_run :: "downstream \<Rightarrow> caller_op list \<Rightarrow> world \<times> decrementingCloser list
    \<Rightarrow> world \<times> decrementingCloser list" where
  "caller_run env [] st = st"
| "caller_run env (op # ops) st = caller_run env ops (caller_step env op st)"

text \<open>The registrar's events among the events of a history.\<close>

fun is_health_event :: "event \<Rightarrow> bool" where
  "is_health_event (HealthInc name) = True"
| "is_health_event (HealthDec name) = True"
| "is_health_event _ = False"

section \<open>The client pool of the agent (src/unnamed/part_001: AppV2.initializePool)\<close>

text \<open>
  The types of package clientpool/v2 are not among the sources; each is the record of
  the arguments its constructor is given. \<open>NewBalancer(addr, WithLookup(a.lookup))\<close>
  gets the same lookup option in both calls, so a balancer is its address.
  \<open>MakeGRPCConnector(fetcher, balancers)\<close> keeps the slice of balancers in the order
  given, and \<open>clientpoolv2.New(connManagers...)\<close> the managers.
  \<open>NewConnManager\<close> is called with the connector, an int64 and a duration; the
  source gives them by position only. In the spec's words the int64 is the manager's
  message-count ceiling and the duration its minimum elapsed-time refresh floor, and the
  two functions that read them back are named so.
\<close>

datatype Balancer = NewBalancer string

datatype GRPCConnector = MakeGRPCConnector "Balancer list"

datatype ConnManager = NewConnManager GRPCConnector int Duration

datatype ClientPool = New "ConnManager list"

text \<open>The fields of \<open>Config\<close> and \<open>AppV2\<close> that \<open>initializePool\<close> reads.\<close>

record Config =
  RouterAddr :: string
  RouterAddrWithAZ :: string

record 'c AppV2 =
  config :: Config
  clientCreds :: "'c option"

text \<open>
  \<open>rand.Int63n(n)\<close> of math/rand, for \<open>n > 0\<close>: the library draws 63-bit numbers
  until one is accepted and returns it modulo \<open>n\<close>. \<open>v\<close> is the accepted draw.
\<close>

definition Int63n :: "int \<Rightarrow> int \<Rightarrow> int" where
  "Int63n n v = v mod n"

text \<open>
  The loop \<open>for i := 0; i < 5; i++\<close>. \<open>draws i\<close> is the draw accepted in the call of
  \<open>rand.Int63n\<close> of iteration \<open>i\<close>. The sum \<open>100000+rand.Int63n(1000)\<close> is an
  int64; it stays below \<open>2 ^ 63\<close>, so it is an integer here.
\<close>

function connManagers_loop :: "GRPCConnector \<Rightarrow> (nat \<Rightarrow> int) \<Rightarrow> nat \<Rightarrow> ConnManager list
    \<Rightarrow> ConnManager list" where
  "connManagers_loop connector draws i connManagers =
     (if i < 5
      then connManagers_loop connector draws (i + 1)
             (connManagers @
              [NewConnManager connector (100000 + Int63n 1000 (draws i)) Second])
      else connManagers)"
  by pat_completeness auto
termination
  by (relation "measure (\<lambda>(connector, draws, i, connManagers). 5 - i)") auto

text \<open>
  \<open>initializePool\<close>. The gauge metric, the envelope averager and the dial options
  go into the fetcher, which the pool does not expose; they are left out.
\<close>

definition initializePool :: "'c AppV2 \<Rightarrow> (nat \<Rightarrow> int) \<Rightarrow> panic + ClientPool" where
  "initializePool a draws =
     (if clientCreds a = None
      then Inl (LogPanic ''Failed to load TLS client config'')
      else (let balancers = [];
                balancers = (if RouterAddrWithAZ (config a) \<noteq> ''''
                             then balancers @ [NewBalancer (RouterAddrWithAZ (config a))]
                             else balancers);
                balancers = balancers @ [NewBalancer (RouterAddr (config a))];
                connector = MakeGRPCConnector balancers;
                connManagers = connManagers_loop connector draws 0 []
            in Inr (New connManagers)))"

text \<open>Reading the pool back.\<close>

fun managers :: "ClientPool \<Rightarrow> ConnManager list" where
  "managers (New ms) = ms"

fun messageCeiling :: "ConnManager \<Rightarrow> int" where
  "messageCeiling (NewConnManager connector n d) = n"

fun refreshFloor :: "ConnManager \<Rightarrow> Duration" where
  "refreshFloor (NewConnManager connector n d) = d"

fun balancersOf :: "ConnManager \<Rightarrow> Balancer list" where
  "balancersOf (NewConnManager (MakeGRPCConnector bs) n d) = bs"

section \<open>Properties of the Transponder\<close>

subsection \<open>What the two loops of addTags compute\<close>

lemma mapassign_Some: "mapassign (Some f) k v = Inr (Some (f(k \<mapsto> v)))"
  by (simp add: mapassign_def)

lemma maplookup_Some: "maplookup (Some f) k = f k"
  by (simp add: maplookup_def)

text \<open>
  On a non-nil map the first loop never panics. Were a key visited twice, the later
  visit would win: hence \<open>rev\<close>.
\<close>

lemma moveTags_Some:
  "DeprecatedTags e = Some f \<Longrightarrow>
   moveTags kvs e = Inr (e\<lparr>DeprecatedTags := Some (\<lambda>k.
     case map_of (rev kvs) k of
       Some v \<Rightarrow> Some \<lparr>Data = Some (Value_Text v)\<rparr>
     | None \<Rightarrow> f k)\<rparr>)"
proof (induction kvs arbitrary: e f)
  case Nil
  then show ?case by simp
next
  case (Cons kv kvs)
  obtain k v where kv: "kv = (k, v)" by (cases kv)
  let ?e = "e\<lparr>DeprecatedTags := Some (f(k \<mapsto> \<lparr>Data = Some (Value_Text v)\<rparr>))\<rparr>"
  have "DeprecatedTags ?e = Some (f(k \<mapsto> \<lparr>Data = Some (Value_Text v)\<rparr>))" by simp
  from Cons.IH [OF this]
  show ?case using Cons.prems
    by (auto simp: kv mapassign_Some map_add_def fun_eq_iff split: option.splits)
qed

text \<open>The second loop keeps every entry it finds and fills the gaps.\<close>

lemma fillTags_Some:
  "DeprecatedTags e = Some f \<Longrightarrow>
   fillTags kvs e = Inr (e\<lparr>DeprecatedTags := Some (\<lambda>k.
     case f k of
       Some d \<Rightarrow> Some d
     | None \<Rightarrow> (case map_of kvs k of
         Some v \<Rightarrow> Some \<lparr>Data = Some (Value_Text v)\<rparr>
       | None \<Rightarrow> None))\<rparr>)"
proof (induction kvs arbitrary: e f)
  case Nil
  then show ?case by (auto simp: fun_eq_iff split: option.splits)
next
  case (Cons kv kvs)
  obtain k v where kv: "kv = (k, v)" by (cases kv)
  show ?case
  proof (cases "f k")
    case None
    let ?e = "e\<lparr>DeprecatedTags := Some (f(k \<mapsto> \<lparr>Data = Some (Value_Text v)\<rparr>))\<rparr>"
    have "DeprecatedTags ?e = Some (f(k \<mapsto> \<lparr>Data = Some (Value_Text v)\<rparr>))" by simp
    from Cons.IH [OF this] show ?thesis using Cons.prems None
      by (auto simp: kv mapassign_Some maplookup_Some fun_eq_iff split: option.splits)
  next
    case (Some d)
    from Cons.IH [OF Cons.prems] show ?thesis using Cons.prems Some
      by (auto simp: kv maplookup_Some fun_eq_iff split: option.splits)
  qed
qed


text \<open>
  \<open>addTags\<close> in closed form, for any list of entries: it never panics, and it changes
  the deprecated tags only.
\<close>

lemma addTags_general:
  "addTags ttags e = Inr (e\<lparr>DeprecatedTags := Some (\<lambda>k.
     case map_of (rev (Tags e)) k of
       Some v \<Rightarrow> Some \<lparr>Data = Some (Value_Text v)\<rparr>
     | None \<Rightarrow>
        (case maplookup (DeprecatedTags e) k of
           Some d \<Rightarrow> Some d
         | None \<Rightarrow>
            (case map_of ttags k of
               Some v \<Rightarrow> Some \<lparr>Data = Some (Value_Text v)\<rparr>
             | None \<Rightarrow> None)))\<rparr>)"
proof (cases "DeprecatedTags e")
  case None
  let ?e1 = "e\<lparr>DeprecatedTags := Some Map.empty\<rparr>"
  have d1: "DeprecatedTags ?e1 = Some Map.empty" by simp
  note m = moveTags_Some [OF d1, of "Tags e"]
  let ?g = "\<lambda>k. case map_of (rev (Tags e)) k of
       Some v \<Rightarrow> Some \<lparr>Data = Some (Value_Text v)\<rparr>
     | None \<Rightarrow> Map.empty k"
  have d2: "DeprecatedTags (?e1\<lparr>DeprecatedTags := Some ?g\<rparr>) = Some ?g" by simp
  note f = fillTags_Some [OF d2, of ttags]
  show ?thesis
    unfolding addTags_def Let_def using None m f
    by (auto simp: maplookup_def fun_eq_iff split: option.splits)
next
  case (Some f0)
  note m = moveTags_Some [OF Some, of "Tags e"]
  let ?g = "\<lambda>k. case map_of (rev (Tags e)) k of
       Some v \<Rightarrow> Some \<lparr>Data = Some (Value_Text v)\<rparr>
     | None \<Rightarrow> f0 k"
  have d2: "DeprecatedTags (e\<lparr>DeprecatedTags := Some ?g\<rparr>) = Some ?g" by simp
  note f = fillTags_Some [OF d2, of ttags]
  show ?thesis
    unfolding addTags_def Let_def using Some m f
    by (auto simp: maplookup_def fun_eq_iff split: option.splits)
qed

lemma addTags_only_deprecated:
  "\<exists>m. addTags ttags e = Inr (e\<lparr>DeprecatedTags := Some m\<rparr>)"
  unfolding addTags_general by blast

text \<open>
  A batch is a slice of pointers, and one envelope may stand in it twice; \<open>addTags\<close>
  then runs on it twice. The second run changes nothing, so the list of envelopes each
  normalized once is what the slice points to after the loop.
\<close>

lemma addTags_idempotent:
  "addTags ttags e = Inr e' \<Longrightarrow> addTags ttags e' = Inr e'"
  unfolding addTags_general
  by (auto simp: maplookup_def fun_eq_iff split: option.splits)



text \<open>
  C8. No nil-map panic. For every envelope, one whose deprecated-tag map is nil
  included, \<open>addTags\<close> returns normally (it never assigns to a nil map), the
  deprecated-tag map is non-nil afterwards, and it has an entry for every structured tag
  key and every static tag key. Its keys are exactly those, together with the keys it
  had before; for a nil map these are none, the map being allocated fresh.
\<close>

theorem addTags_never_assigns_to_nil_map:
  "\<exists>e' m. addTags ttags e = Inr e' \<and> DeprecatedTags e' = Some m
     \<and> fst ` set (Tags e) \<subseteq> dom m \<and> fst ` set ttags \<subseteq> dom m
     \<and> dom m = fst ` set (Tags e) \<union> fst ` set ttags
               \<union> (case DeprecatedTags e of None \<Rightarrow> {} | Some f \<Rightarrow> dom f)"
proof -
  have eq: "\<And>xs k. (map_of xs k = None) = (k \<notin> fst ` set xs)"
    by (simp add: map_of_eq_None_iff)
  show ?thesis
    unfolding addTags_general
    apply (intro exI conjI)
        apply (rule refl)
       apply simp
      apply (auto simp: dom_def maplookup_def eq split: option.splits)
    done
qed

subsection \<open>write\<close>

lemma addTagsAll_only_deprecated:
  "\<exists>batch'. addTagsAll ttags batch = Inr batch'
     \<and> length batch' = length batch
     \<and> map (\<lambda>e. e\<lparr>DeprecatedTags := None\<rparr>) batch'
         = map (\<lambda>e. e\<lparr>DeprecatedTags := None\<rparr>) batch"
proof (induction batch)
  case Nil
  then show ?case by simp
next
  case (Cons e es)
  obtain m where m: "addTags ttags e = Inr (e\<lparr>DeprecatedTags := Some m\<rparr>)"
    using addTags_only_deprecated by blast
  from Cons.IH obtain es' where es': "addTagsAll ttags es = Inr es'"
    "length es' = length es"
    "map (\<lambda>e. e\<lparr>DeprecatedTags := None\<rparr>) es' = map (\<lambda>e. e\<lparr>DeprecatedTags := None\<rparr>) es"
    by blast
  show ?case using m es' by simp
qed

text \<open>Two lists of envelopes that agree once the deprecated tags are erased agree on
  every other field.\<close>

lemma erased_fields:
  assumes "map (\<lambda>e. e\<lparr>DeprecatedTags := None\<rparr>) xs = map (\<lambda>e. e\<lparr>DeprecatedTags := None\<rparr>) ys"
  shows "map Tags xs = map Tags ys" "map Timestamp xs = map Timestamp ys"
    "map SourceId xs = map SourceId ys" "map InstanceId xs = map InstanceId ys"
    "map Message xs = map Message ys"
proof -
  have "map (Tags \<circ> (\<lambda>e. e\<lparr>DeprecatedTags := None\<rparr>)) xs
      = map (Tags \<circ> (\<lambda>e. e\<lparr>DeprecatedTags := None\<rparr>)) ys"
    unfolding map_map [symmetric] using assms by simp
  then show "map Tags xs = map Tags ys" by (simp add: comp_def)
  have "map (Timestamp \<circ> (\<lambda>e. e\<lparr>DeprecatedTags := None\<rparr>)) xs
      = map (Timestamp \<circ> (\<lambda>e. e\<lparr>DeprecatedTags := None\<rparr>)) ys"
    unfolding map_map [symmetric] using assms by simp
  then show "map Timestamp xs = map Timestamp ys" by (simp add: comp_def)
  have "map (SourceId \<circ> (\<lambda>e. e\<lparr>DeprecatedTags := None\<rparr>)) xs
      = map (SourceId \<circ> (\<lambda>e. e\<lparr>DeprecatedTags := None\<rparr>)) ys"
    unfolding map_map [symmetric] using assms by simp
  then show "map SourceId xs = map SourceId ys" by (simp add: comp_def)
  have "map (InstanceId \<circ> (\<lambda>e. e\<lparr>DeprecatedTags := None\<rparr>)) xs
      = map (InstanceId \<circ> (\<lambda>e. e\<lparr>DeprecatedTags := None\<rparr>)) ys"
    unfolding map_map [symmetric] using assms by simp
  then show "map InstanceId xs = map InstanceId ys" by (simp add: comp_def)
  have "map (Message \<circ> (\<lambda>e. e\<lparr>DeprecatedTags := None\<rparr>)) xs
      = map (Message \<circ> (\<lambda>e. e\<lparr>DeprecatedTags := None\<rparr>)) ys"
    unfolding map_map [symmetric] using assms by simp
  then show "map Message xs = map Message ys" by (simp add: comp_def)
qed

text \<open>
  C4. Outcome accounting of a write. For every batch, \<open>write\<close> returns normally and
  hands the batch to the Writer exactly once (the history of written batches grows by
  this one batch, whatever the Writer answers: there is no retry). When the Writer
  returns nil, the egress metric grows by the length of the batch and the dropped metric
  keeps its value; when the Writer returns an error, the dropped metric grows by the
  length of the batch and the egress metric keeps its value. The metrics are uint64
  counters, so the sum is that of 64-bit words.
\<close>

theorem write_outcome_accounting:
  "\<exists>batch'. addTagsAll (tags t) batch = Inr batch' \<and> length batch' = length batch \<and>
     Transponder_write t batch w =
       Inr (if writer t (written w) batch' = None
            then w\<lparr>written := written w @ [batch'],
                   egressMetric := egressMetric w + of_nat (length batch)\<rparr>
            else w\<lparr>written := written w @ [batch'],
                   droppedMetric := droppedMetric w + of_nat (length batch)\<rparr>)"
proof -
  obtain batch' where b: "addTagsAll (tags t) batch = Inr batch'" "length batch' = length batch"
    using addTagsAll_only_deprecated by blast
  then show ?thesis
    by (simp add: Transponder_write_def Let_def Increment_def)
qed

text \<open>
  C9. Frame of the write path. For every batch, \<open>write\<close> returns normally and the
  batch it delivers to the Writer has the length of the batch it received and, position
  by position, the same envelope up to the deprecated tags: erasing the deprecated tags
  on both sides leaves equal lists. In particular the structured tags, the timestamps,
  the source and instance identifiers and the payloads are those received, in the same
  order.
\<close>

theorem write_changes_deprecated_tags_only:
  "\<exists>w' batch'. Transponder_write t batch w = Inr w'
     \<and> written w' = written w @ [batch']
     \<and> length batch' = length batch
     \<and> map (\<lambda>e. e\<lparr>DeprecatedTags := None\<rparr>) batch'
         = map (\<lambda>e. e\<lparr>DeprecatedTags := None\<rparr>) batch
     \<and> map Tags batch' = map Tags batch
     \<and> map Timestamp batch' = map Timestamp batch
     \<and> map SourceId batch' = map SourceId batch
     \<and> map InstanceId batch' = map InstanceId batch
     \<and> map Message batch' = map Message batch"
proof -
  obtain batch' where b: "addTagsAll (tags t) batch = Inr batch'" "length batch' = length batch"
    "map (\<lambda>e. e\<lparr>DeprecatedTags := None\<rparr>) batch' = map (\<lambda>e. e\<lparr>DeprecatedTags := None\<rparr>) batch"
    using addTagsAll_only_deprecated by blast
  have w: "\<exists>w'. Transponder_write t batch w = Inr w' \<and> written w' = written w @ [batch']"
    using b(1) by (simp add: Transponder_write_def Let_def)
  show ?thesis using w b(2,3) erased_fields [OF b(3)] by blast
qed

subsection \<open>Start\<close>

text \<open>
  C5. Idle behaviour of the consumer loop. An iteration whose poll finds the buffer
  empty calls the batcher's \<open>Flush\<close> and then sleeps 100 milliseconds (100000000
  nanoseconds) before the next poll; an iteration whose poll returns an envelope hands
  it to the batcher's \<open>Write\<close> and does not sleep. This holds for every poll: after
  any sequence of polls the loop has done exactly these actions, poll by poll, in order.
\<close>

theorem Start_flushes_and_sleeps_when_idle:
  "Start_iteration None acts = acts @ [TryNext, BatcherFlush, Sleep 100000000]
   \<and> Start_iteration (Some envelope) acts = acts @ [TryNext, BatcherWrite envelope]
   \<and> Start_polls polls acts = acts @ concat (map (\<lambda>polled. case polled of
         None \<Rightarrow> [TryNext, BatcherFlush, Sleep 100000000]
       | Some envelope \<Rightarrow> [TryNext, BatcherWrite envelope]) polls)"
proof -
  have it: "\<And>polled as. Start_iteration polled as = as @ (case polled of
         None \<Rightarrow> [TryNext, BatcherFlush, Sleep 100000000]
       | Some envelope \<Rightarrow> [TryNext, BatcherWrite envelope])"
    by (simp add: Start_iteration_def Millisecond_def Microsecond_def Nanosecond_def
        split: option.splits)
  have "Start_polls polls acts = acts @ concat (map (\<lambda>polled. case polled of
         None \<Rightarrow> [TryNext, BatcherFlush, Sleep 100000000]
       | Some envelope \<Rightarrow> [TryNext, BatcherWrite envelope]) polls)"
    by (induction polls arbitrary: acts) (simp_all add: it)
  then show ?thesis by (simp add: it)
qed

section \<open>Properties of the connector\<close>

subsection \<open>openStream\<close>

lemma FromError_Unimplemented_ok:
  "fst (FromError err) = Unimplemented \<Longrightarrow> snd (FromError err)"
  by (cases err rule: FromError.cases) auto

lemma openStream_eq:
  "openStream env (ClientConn c) w =
     (case ingressBatchSenderResult env (events w) c of
        Some err \<Rightarrow>
          (Inl (ErrorString (''error establishing ingestor stream to: '' @ Error err)),
           w\<lparr>events := events w @ [IngressBatchSender c]\<rparr>)
      | None \<Rightarrow>
         (let s = length (events w);
              probed = events w @ [IngressBatchSender c, CloseAndRecv s]
          in if fst (FromError (closeAndRecvResult env (events w @ [IngressBatchSender c]) s)) = Unimplemented
             then (let h = probed @ [LogPrintf ''failed to open stream, falling back to deprecated API'']
                   in (case dopplerBatchSenderResult env h c of
                         None \<Rightarrow> Inr (BatchSenderClient Deprecated c (length h))
                       | Some err \<Rightarrow>
                           Inl (ErrorString (''error establishing ingestor stream to: '' @ Error err)),
                       w\<lparr>events := h @ [DopplerIngressBatchSender c]\<rparr>))
             else (case ingressBatchSenderResult env probed c of
                     None \<Rightarrow> Inr (BatchSenderClient Current c (length probed))
                   | Some err \<Rightarrow>
                       Inl (ErrorString (''error establishing ingestor stream to: '' @ Error err)),
                   w\<lparr>events := probed @ [IngressBatchSender c]\<rparr>)))"
proof (cases "ingressBatchSenderResult env (events w) c")
  case (Some err)
  then show ?thesis by (simp add: openStream_def Let_def)
next
  case None
  let ?perr = "closeAndRecvResult env (events w @ [IngressBatchSender c]) (length (events w))"
  show ?thesis
  proof (cases "fst (FromError ?perr) = Unimplemented")
    case True
    then have "FromError ?perr = (Unimplemented, True)"
      using FromError_Unimplemented_ok [of ?perr] by (cases "FromError ?perr") simp
    then show ?thesis using None
      by (simp add: openStream_def Let_def Printf_def split: option.splits)
  next
    case False
    then obtain code ok where "FromError ?perr = (code, ok)" "code \<noteq> Unimplemented"
      by (cases "FromError ?perr") auto
    then show ?thesis using None
      by (simp add: openStream_def Let_def Printf_def split: option.splits)
  qed
qed

lemma openStream_health:
  "health (snd (openStream env conn w)) = health w"
  by (cases conn) (simp add: openStream_eq Let_def split: option.splits)

lemma openStream_health_events:
  "filter is_health_event (events (snd (openStream env conn w))) = filter is_health_event (events w)"
  by (cases conn) (simp add: openStream_eq Let_def split: option.splits)

subsection \<open>Fetch and Close\<close>

lemma Fetch_dial_fails:
  "dialResult env (events w) addr = Some err \<Longrightarrow>
   Fetch env addr w =
     ((None, None,
       Some (ErrorString (''error dialing ingestor stream to '' @ addr @ '': '' @ Error err))),
      w\<lparr>events := events w @ [Dial addr]\<rparr>)"
  by (simp add: Fetch_def grpc_Dial_def Let_def)

lemma Fetch_open_fails:
  "dialResult env (events w) addr = None \<Longrightarrow>
   openStream env (ClientConn (length (events w))) (w\<lparr>events := events w @ [Dial addr]\<rparr>)
     = (Inl oerr, w2) \<Longrightarrow>
   Fetch env addr w =
     ((None, None, Some oerr), w2\<lparr>events := events w2 @ [ConnClose (length (events w))]\<rparr>)"
  by (simp add: Fetch_def grpc_Dial_def Let_def)

lemma Fetch_succeeds:
  "dialResult env (events w) addr = None \<Longrightarrow>
   openStream env (ClientConn (length (events w))) (w\<lparr>events := events w @ [Dial addr]\<rparr>)
     = (Inr sender, w2) \<Longrightarrow>
   Fetch env addr w =
     ((Some (decrementingCloser (ClientConn (length (events w)))), Some sender, None),
      w2\<lparr>events := events w2 @ [HealthInc ''dopplerConnections'', HealthInc ''dopplerV2Streams'',
             LogPrintf (''successfully established a stream to doppler '' @ addr)],
          health := (health w2)(''dopplerConnections'' := health w2 ''dopplerConnections'' + 1,
                                ''dopplerV2Streams'' := health w2 ''dopplerV2Streams'' + 1)\<rparr>)"
  by (simp add: Fetch_def grpc_Dial_def Let_def Inc_def Printf_def)

lemma openStream_after_dial:
  assumes "openStream env conn (w\<lparr>events := events w @ [Dial addr]\<rparr>) = (r, w2)"
  shows "health w2 = health w"
    and "filter is_health_event (events w2) = filter is_health_event (events w)"
proof -
  have "w2 = snd (openStream env conn (w\<lparr>events := events w @ [Dial addr]\<rparr>))"
    using assms by simp
  then show "health w2 = health w"
    and "filter is_health_event (events w2) = filter is_health_event (events w)"
    by (simp_all add: openStream_health openStream_health_events)
qed

lemma Fetch_cases:
  obtains
    (dial_fails) err where "dialResult env (events w) addr = Some err"
  | (open_fails) oerr w2 where "dialResult env (events w) addr = None"
      "openStream env (ClientConn (length (events w))) (w\<lparr>events := events w @ [Dial addr]\<rparr>)
         = (Inl oerr, w2)"
  | (succeeds) sender w2 where "dialResult env (events w) addr = None"
      "openStream env (ClientConn (length (events w))) (w\<lparr>events := events w @ [Dial addr]\<rparr>)
         = (Inr sender, w2)"
proof (cases "dialResult env (events w) addr")
  case (Some err)
  then show ?thesis using dial_fails by blast
next
  case None
  obtain r w2 where o: "openStream env (ClientConn (length (events w))) (w\<lparr>events := events w @ [Dial addr]\<rparr>) = (r, w2)"
    by (cases "openStream env (ClientConn (length (events w))) (w\<lparr>events := events w @ [Dial addr]\<rparr>)")
  show ?thesis
  proof (cases r)
    case (Inl oerr)
    then show ?thesis using None o open_fails by blast
  next
    case (Inr sender)
    then show ?thesis using None o succeeds by blast
  qed
qed

lemma Fetch_closer_health:
  assumes "Fetch env addr w = ((Some cl, sd, er), w')"
  shows "health w' = (health w)(''dopplerConnections'' := health w ''dopplerConnections'' + 1,
                                ''dopplerV2Streams'' := health w ''dopplerV2Streams'' + 1)"
    and "filter is_health_event (events w') = filter is_health_event (events w)
           @ [HealthInc ''dopplerConnections'', HealthInc ''dopplerV2Streams'']"
proof -
  have "health w' = (health w)(''dopplerConnections'' := health w ''dopplerConnections'' + 1,
                                ''dopplerV2Streams'' := health w ''dopplerV2Streams'' + 1)
    \<and> filter is_health_event (events w') = filter is_health_event (events w)
           @ [HealthInc ''dopplerConnections'', HealthInc ''dopplerV2Streams'']"
  proof (cases rule: Fetch_cases [of env w addr])
    case (dial_fails err)
    from Fetch_dial_fails [OF this] assms show ?thesis by simp
  next
    case (open_fails oerr w2)
    from Fetch_open_fails [OF this] assms show ?thesis by simp
  next
    case (succeeds sender w2)
    from Fetch_succeeds [OF this] assms openStream_after_dial [OF succeeds(2)]
    show ?thesis by auto
  qed
  then show "health w' = (health w)(''dopplerConnections'' := health w ''dopplerConnections'' + 1,
                                ''dopplerV2Streams'' := health w ''dopplerV2Streams'' + 1)"
    and "filter is_health_event (events w') = filter is_health_event (events w)
           @ [HealthInc ''dopplerConnections'', HealthInc ''dopplerV2Streams'']"
    by simp_all
qed

lemma Fetch_no_closer_health:
  assumes "Fetch env addr w = ((None, sd, er), w')"
  shows "health w' = health w"
    and "filter is_health_event (events w') = filter is_health_event (events w)"
proof -
  have "health w' = health w
    \<and> filter is_health_event (events w') = filter is_health_event (events w)"
  proof (cases rule: Fetch_cases [of env w addr])
    case (dial_fails err)
    from Fetch_dial_fails [OF this] assms show ?thesis by auto
  next
    case (open_fails oerr w2)
    from Fetch_open_fails [OF this] assms openStream_after_dial [OF open_fails(2)]
    show ?thesis by auto
  next
    case (succeeds sender w2)
    from Fetch_succeeds [OF this] assms show ?thesis by simp
  qed
  then show "health w' = health w"
    and "filter is_health_event (events w') = filter is_health_event (events w)"
    by simp_all
qed

lemma Close_health:
  "health (snd (Close env d w)) =
     (health w)(''dopplerConnections'' := health w ''dopplerConnections'' - 1,
                ''dopplerV2Streams'' := health w ''dopplerV2Streams'' - 1)"
  "filter is_health_event (events (snd (Close env d w))) = filter is_health_event (events w)
           @ [HealthDec ''dopplerConnections'', HealthDec ''dopplerV2Streams'']"
proof -
  obtain c where d: "d = decrementingCloser (ClientConn c)"
    by (cases d) (metis ClientConn.exhaust)
  show "health (snd (Close env d w)) =
     (health w)(''dopplerConnections'' := health w ''dopplerConnections'' - 1,
                ''dopplerV2Streams'' := health w ''dopplerV2Streams'' - 1)"
    by (simp add: d Let_def Dec_def)
  show "filter is_health_event (events (snd (Close env d w))) = filter is_health_event (events w)
           @ [HealthDec ''dopplerConnections'', HealthDec ''dopplerV2Streams'']"
    by (simp add: d Let_def Dec_def)
qed

lemma caller_step_balance:
  "caller_step env op (w, held) = (w', held') \<Longrightarrow>
   health w' = (\<lambda>name. if name = ''dopplerConnections'' \<or> name = ''dopplerV2Streams''
                        then health w name + int (length held') - int (length held)
                        else health w name)"
proof (cases op)
  case (OpFetch addr)
  assume st: "caller_step env op (w, held) = (w', held')"
  obtain cl sd er w1 where f: "Fetch env addr w = ((cl, sd, er), w1)"
    by (cases "Fetch env addr w") auto
  show ?thesis
  proof (cases cl)
    case None
    with f st OpFetch have "w' = w1" "held' = held" by auto
    with Fetch_no_closer_health(1) [OF f [unfolded None]] show ?thesis by auto
  next
    case (Some c)
    with f st OpFetch have "w' = w1" "held' = held @ [c]" by auto
    with Fetch_closer_health(1) [OF f [unfolded Some]] show ?thesis by (auto simp: fun_eq_iff)
  qed
next
  case (OpClose i)
  assume st: "caller_step env op (w, held) = (w', held')"
  show ?thesis
  proof (cases "i < length held")
    case True
    with st OpClose have "w' = snd (Close env (held ! i) w)" "held' = take i held @ drop (Suc i) held"
      by auto
    moreover have "int (length (take i held @ drop (Suc i) held)) = int (length held) - 1"
      using True by auto
    ultimately show ?thesis using Close_health(1) [of env "held ! i" w] by (auto simp: fun_eq_iff)
  next
    case False
    with st OpClose show ?thesis by auto
  qed
qed

lemma caller_run_balance:
  "caller_run env ops (w, held) = (w', held') \<Longrightarrow>
   health w' = (\<lambda>name. if name = ''dopplerConnections'' \<or> name = ''dopplerV2Streams''
                        then health w name + int (length held') - int (length held)
                        else health w name)"
proof (induction ops arbitrary: w held)
  case Nil
  then show ?case by auto
next
  case (Cons op ops)
  obtain w1 held1 where s: "caller_step env op (w, held) = (w1, held1)"
    by (cases "caller_step env op (w, held)")
  with Cons.prems have "caller_run env ops (w1, held1) = (w', held')" by simp
  from Cons.IH [OF this] caller_step_balance [OF s] show ?case by (auto simp: fun_eq_iff)
qed

text \<open>
  C2. Protocol negotiation. Once the current-version call has opened a stream on the
  connection, \<open>openStream\<close> terminates that stream at once with \<open>CloseAndRecv\<close>
  (the probe: nothing is sent on it) and reads the status of the error that comes back.
  If its code is Unimplemented, the only call that follows on the connection is the
  deprecated \<open>BatchSender\<close>, and its stream is what is returned: the current-version
  call is made once, for the probe, and not again. For any other status the probe
  stream is dropped and the current-version call is made a second time; the stream it
  opens, which is not the probe, is returned. When the second call of either branch
  fails, its error is returned in place of a stream. \<open>Fetch\<close> hands the stream that
  \<open>openStream\<close> returns to its caller as it is, and after \<open>openStream\<close> it makes
  no call on the connection: it only counts and logs.
\<close>

theorem openStream_negotiates_protocol:
  "(ingressBatchSenderResult env (events w) c = None \<longrightarrow>
      (let s = length (events w);
           probed = events w @ [IngressBatchSender c, CloseAndRecv s];
           status = fst (FromError (closeAndRecvResult env (events w @ [IngressBatchSender c]) s))
       in openStream env (ClientConn c) w =
          (if status = Unimplemented
           then (let h = probed @ [LogPrintf ''failed to open stream, falling back to deprecated API'']
                 in (case dopplerBatchSenderResult env h c of
                       None \<Rightarrow> Inr (BatchSenderClient Deprecated c (length h))
                     | Some err \<Rightarrow>
                         Inl (ErrorString (''error establishing ingestor stream to: '' @ Error err)),
                     w\<lparr>events := h @ [DopplerIngressBatchSender c]\<rparr>))
           else (case ingressBatchSenderResult env probed c of
                   None \<Rightarrow> Inr (BatchSenderClient Current c (length probed))
                 | Some err \<Rightarrow>
                     Inl (ErrorString (''error establishing ingestor stream to: '' @ Error err)),
                 w\<lparr>events := probed @ [IngressBatchSender c]\<rparr>))))
   \<and> (dialResult env (events w) addr = None
       \<and> openStream env (ClientConn (length (events w))) (w\<lparr>events := events w @ [Dial addr]\<rparr>)
           = (Inr sender, w2) \<longrightarrow>
      (\<exists>w'. Fetch env addr w =
               ((Some (decrementingCloser (ClientConn (length (events w)))), Some sender, None), w')
          \<and> events w' = events w2 @ [HealthInc ''dopplerConnections'', HealthInc ''dopplerV2Streams'',
               LogPrintf (''successfully established a stream to doppler '' @ addr)]))"
proof -
  have 1: "let s = length (events w);
           probed = events w @ [IngressBatchSender c, CloseAndRecv s];
           status = fst (FromError (closeAndRecvResult env (events w @ [IngressBatchSender c]) s))
       in openStream env (ClientConn c) w =
          (if status = Unimplemented
           then (let h = probed @ [LogPrintf ''failed to open stream, falling back to deprecated API'']
                 in (case dopplerBatchSenderResult env h c of
                       None \<Rightarrow> Inr (BatchSenderClient Deprecated c (length h))
                     | Some err \<Rightarrow>
                         Inl (ErrorString (''error establishing ingestor stream to: '' @ Error err)),
                     w\<lparr>events := h @ [DopplerIngressBatchSender c]\<rparr>))
           else (case ingressBatchSenderResult env probed c of
                   None \<Rightarrow> Inr (BatchSenderClient Current c (length probed))
                 | Some err \<Rightarrow>
                     Inl (ErrorString (''error establishing ingestor stream to: '' @ Error err)),
                 w\<lparr>events := probed @ [IngressBatchSender c]\<rparr>))"
    if "ingressBatchSenderResult env (events w) c = None"
    using that by (simp add: openStream_eq Let_def)
  have 2: "\<exists>w'. Fetch env addr w =
               ((Some (decrementingCloser (ClientConn (length (events w)))), Some sender, None), w')
          \<and> events w' = events w2 @ [HealthInc ''dopplerConnections'', HealthInc ''dopplerV2Streams'',
               LogPrintf (''successfully established a stream to doppler '' @ addr)]"
    if d: "dialResult env (events w) addr = None"
    and o: "openStream env (ClientConn (length (events w))) (w\<lparr>events := events w @ [Dial addr]\<rparr>)
           = (Inr sender, w2)"
    using Fetch_succeeds [OF d o] by simp
  from 1 2 show ?thesis by blast
qed

text \<open>
  At concrete inputs, on the connection dialed first in an empty history: a downstream
  that answers the probe with Unimplemented gets the deprecated call and no second
  current-version call, here and in \<open>Fetch\<close>; one that answers it with a nil error
  gets the current-version call a second time.
\<close>

theorem openStream_negotiates_protocol_witness:
  "openStream
     \<lparr>dialResult = (\<lambda>h a. None), ingressBatchSenderResult = (\<lambda>h c. None),
      dopplerBatchSenderResult = (\<lambda>h c. None),
      closeAndRecvResult = (\<lambda>h s. Some (StatusError Unimplemented ''unknown service loggregator.v2.Ingress'')),
      connCloseResult = (\<lambda>h c. None)\<rparr>
     (ClientConn 0) \<lparr>events = [Dial ''10.0.0.1:8082''], health = (\<lambda>name. 0)\<rparr>
     = (Inr (BatchSenderClient Deprecated 0 4),
        \<lparr>events = [Dial ''10.0.0.1:8082'', IngressBatchSender 0, CloseAndRecv 1,
                   LogPrintf ''failed to open stream, falling back to deprecated API'',
                   DopplerIngressBatchSender 0],
         health = (\<lambda>name. 0)\<rparr>)
   \<and> openStream
     \<lparr>dialResult = (\<lambda>h a. None), ingressBatchSenderResult = (\<lambda>h c. None),
      dopplerBatchSenderResult = (\<lambda>h c. None),
      closeAndRecvResult = (\<lambda>h s. None),
      connCloseResult = (\<lambda>h c. None)\<rparr>
     (ClientConn 0) \<lparr>events = [Dial ''10.0.0.1:8082''], health = (\<lambda>name. 0)\<rparr>
     = (Inr (BatchSenderClient Current 0 3),
        \<lparr>events = [Dial ''10.0.0.1:8082'', IngressBatchSender 0, CloseAndRecv 1,
                   IngressBatchSender 0],
         health = (\<lambda>name. 0)\<rparr>)
   \<and> (\<exists>w'. Fetch
     \<lparr>dialResult = (\<lambda>h a. None), ingressBatchSenderResult = (\<lambda>h c. None),
      dopplerBatchSenderResult = (\<lambda>h c. None),
      closeAndRecvResult = (\<lambda>h s. Some (StatusError Unimplemented ''unknown service loggregator.v2.Ingress'')),
      connCloseResult = (\<lambda>h c. None)\<rparr>
     ''10.0.0.1:8082'' \<lparr>events = [], health = (\<lambda>name. 0)\<rparr>
     = ((Some (decrementingCloser (ClientConn 0)), Some (BatchSenderClient Deprecated 0 4), None), w')
      \<and> events w' = [Dial ''10.0.0.1:8082'', IngressBatchSender 0, CloseAndRecv 1,
                   LogPrintf ''failed to open stream, falling back to deprecated API'',
                   DopplerIngressBatchSender 0,
                   HealthInc ''dopplerConnections'', HealthInc ''dopplerV2Streams'',
                   LogPrintf ''successfully established a stream to doppler 10.0.0.1:8082''])"
  (is "openStream ?legacy (ClientConn 0) ?w1 = (Inr ?dep, ?w2) \<and> openStream ?cur (ClientConn 0) ?w1 = ?r
       \<and> (\<exists>w'. Fetch ?legacy ?a ?w0 = (?res, w') \<and> events w' = ?evs)")
proof -
  have a: "openStream ?legacy (ClientConn 0) ?w1 = (Inr ?dep, ?w2)"
    using openStream_negotiates_protocol [where env = ?legacy and w = ?w1 and c = 0, THEN conjunct1]
    by (simp add: Let_def)
  have b: "openStream ?cur (ClientConn 0) ?w1 = ?r"
    using openStream_negotiates_protocol [where env = ?cur and w = ?w1 and c = 0, THEN conjunct1]
    by (simp add: Let_def)
  have c: "\<exists>w'. Fetch ?legacy ?a ?w0 = (?res, w') \<and> events w' = ?evs"
    using openStream_negotiates_protocol [where env = ?legacy and w = ?w0 and addr = ?a
        and sender = ?dep and ?w2.0 = ?w2, THEN conjunct2] a
    by simp
  from a b c show ?thesis by blast
qed

text \<open>
  C10. Error atomicity of Fetch. When the dial fails, \<open>Fetch\<close> returns a nil
  closer, a nil stream and a non-nil error, and all it has done is the dial. When the
  dial succeeds and \<open>openStream\<close> fails, \<open>Fetch\<close> closes the connection it has
  just dialed (its last act) and returns a nil closer, a nil stream and the non-nil error
  of \<open>openStream\<close>. In both cases the health counters keep their values and the
  registrar is not called; the caller gets nothing to close.
\<close>

theorem Fetch_error_atomicity:
  "(dialResult env (events w) addr = Some err \<longrightarrow>
      Fetch env addr w =
        ((None, None,
          Some (ErrorString (''error dialing ingestor stream to '' @ addr @ '': '' @ Error err))),
         w\<lparr>events := events w @ [Dial addr]\<rparr>))
   \<and> (dialResult env (events w) addr = None
       \<and> openStream env (ClientConn (length (events w))) (w\<lparr>events := events w @ [Dial addr]\<rparr>)
           = (Inl oerr, w2) \<longrightarrow>
      Fetch env addr w =
        ((None, None, Some oerr), w2\<lparr>events := events w2 @ [ConnClose (length (events w))]\<rparr>)
      \<and> health w2 = health w
      \<and> filter is_health_event (events w2) = filter is_health_event (events w))"
proof -
  have 1: "Fetch env addr w =
        ((None, None,
          Some (ErrorString (''error dialing ingestor stream to '' @ addr @ '': '' @ Error err))),
         w\<lparr>events := events w @ [Dial addr]\<rparr>)"
    if "dialResult env (events w) addr = Some err"
    using that by (rule Fetch_dial_fails)
  have 2: "Fetch env addr w =
        ((None, None, Some oerr), w2\<lparr>events := events w2 @ [ConnClose (length (events w))]\<rparr>)
      \<and> health w2 = health w
      \<and> filter is_health_event (events w2) = filter is_health_event (events w)"
    if d: "dialResult env (events w) addr = None"
    and o: "openStream env (ClientConn (length (events w))) (w\<lparr>events := events w @ [Dial addr]\<rparr>)
           = (Inl oerr, w2)"
    using Fetch_open_fails [OF d o] openStream_after_dial [OF o] by simp
  from 1 2 show ?thesis by blast
qed

theorem Fetch_error_atomicity_witness:
  "Fetch
     \<lparr>dialResult = (\<lambda>h a. Some (ErrorString ''connection refused'')),
      ingressBatchSenderResult = (\<lambda>h c. None), dopplerBatchSenderResult = (\<lambda>h c. None),
      closeAndRecvResult = (\<lambda>h s. None), connCloseResult = (\<lambda>h c. None)\<rparr>
     ''10.0.0.1:8082'' \<lparr>events = [], health = (\<lambda>name. 0)\<rparr>
     = ((None, None,
         Some (ErrorString ''error dialing ingestor stream to 10.0.0.1:8082: connection refused'')),
        \<lparr>events = [Dial ''10.0.0.1:8082''], health = (\<lambda>name. 0)\<rparr>)
   \<and> Fetch
     \<lparr>dialResult = (\<lambda>h a. None),
      ingressBatchSenderResult = (\<lambda>h c. Some (StatusError Unavailable ''transport is closing'')),
      dopplerBatchSenderResult = (\<lambda>h c. None),
      closeAndRecvResult = (\<lambda>h s. None), connCloseResult = (\<lambda>h c. None)\<rparr>
     ''10.0.0.1:8082'' \<lparr>events = [], health = (\<lambda>name. 0)\<rparr>
     = ((None, None,
         Some (ErrorString ''error establishing ingestor stream to: transport is closing'')),
        \<lparr>events = [Dial ''10.0.0.1:8082'', IngressBatchSender 0, ConnClose 0],
         health = (\<lambda>name. 0)\<rparr>)"
  using Fetch_error_atomicity [where
     env = "\<lparr>dialResult = (\<lambda>h a. Some (ErrorString ''connection refused'')),
      ingressBatchSenderResult = (\<lambda>h c. None), dopplerBatchSenderResult = (\<lambda>h c. None),
      closeAndRecvResult = (\<lambda>h s. None), connCloseResult = (\<lambda>h c. None)\<rparr>"
     and w = "\<lparr>events = [], health = (\<lambda>name. 0)\<rparr>" and addr = "''10.0.0.1:8082''"
     and err = "ErrorString ''connection refused''"]
   Fetch_error_atomicity [where
     env = "\<lparr>dialResult = (\<lambda>h a. None),
      ingressBatchSenderResult = (\<lambda>h c. Some (StatusError Unavailable ''transport is closing'')),
      dopplerBatchSenderResult = (\<lambda>h c. None),
      closeAndRecvResult = (\<lambda>h s. None), connCloseResult = (\<lambda>h c. None)\<rparr>"
     and w = "\<lparr>events = [], health = (\<lambda>name. 0)\<rparr>" and addr = "''10.0.0.1:8082''"
     and oerr = "ErrorString ''error establishing ingestor stream to: transport is closing''"
     and ?w2.0 = "\<lparr>events = [Dial ''10.0.0.1:8082'', IngressBatchSender 0], health = (\<lambda>name. 0)\<rparr>"]
  by (simp add: openStream_def Let_def)

text \<open>
  C3. Balance of the health counters. (1) A fetch whose dial and whose stream open
  both succeed returns a closer and adds one to "dopplerConnections" and one to
  "dopplerV2Streams": the registrar sees exactly one \<open>Inc\<close> of each, and no other
  call. (2) \<open>Close\<close> of a closer subtracts one from each: exactly one \<open>Dec\<close> of
  each. (3) A fetch that returns no closer leaves every counter as it was and makes no
  call of the registrar; (4) a fetch whose dial fails, and one whose dial succeeds but
  whose stream open fails, return no closer. (5) Hence, when a caller that holds no
  closer runs any sequence of fetches and closes and ends holding no closer (every
  closer it was given has been closed once), every counter of the registrar has the
  value it had before the sequence.
\<close>

theorem health_counters_balanced:
  "(dialResult env (events w) addr = None
      \<and> openStream env (ClientConn (length (events w))) (w\<lparr>events := events w @ [Dial addr]\<rparr>)
          = (Inr sender, w2) \<longrightarrow>
      (\<exists>w'. Fetch env addr w =
              ((Some (decrementingCloser (ClientConn (length (events w)))), Some sender, None), w')
         \<and> health w' = (health w)(''dopplerConnections'' := health w ''dopplerConnections'' + 1,
                                    ''dopplerV2Streams'' := health w ''dopplerV2Streams'' + 1)
         \<and> filter is_health_event (events w') = filter is_health_event (events w)
              @ [HealthInc ''dopplerConnections'', HealthInc ''dopplerV2Streams'']))
   \<and> (health (snd (Close env d w)) =
          (health w)(''dopplerConnections'' := health w ''dopplerConnections'' - 1,
                     ''dopplerV2Streams'' := health w ''dopplerV2Streams'' - 1)
      \<and> filter is_health_event (events (snd (Close env d w))) = filter is_health_event (events w)
           @ [HealthDec ''dopplerConnections'', HealthDec ''dopplerV2Streams''])
   \<and> (fst (fst (Fetch env addr w)) = None \<longrightarrow>
        health (snd (Fetch env addr w)) = health w
      \<and> filter is_health_event (events (snd (Fetch env addr w))) = filter is_health_event (events w))
   \<and> (dialResult env (events w) addr = Some err \<longrightarrow> fst (fst (Fetch env addr w)) = None)
   \<and> (dialResult env (events w) addr = None
      \<and> openStream env (ClientConn (length (events w))) (w\<lparr>events := events w @ [Dial addr]\<rparr>)
          = (Inl oerr, w2) \<longrightarrow>
        fst (fst (Fetch env addr w)) = None)
   \<and> (caller_run env ops (w, []) = (w'', []) \<longrightarrow> health w'' = health w)"
proof -
  have 1: "\<exists>w'. Fetch env addr w =
              ((Some (decrementingCloser (ClientConn (length (events w)))), Some sender, None), w')
         \<and> health w' = (health w)(''dopplerConnections'' := health w ''dopplerConnections'' + 1,
                                    ''dopplerV2Streams'' := health w ''dopplerV2Streams'' + 1)
         \<and> filter is_health_event (events w') = filter is_health_event (events w)
              @ [HealthInc ''dopplerConnections'', HealthInc ''dopplerV2Streams'']"
    if d: "dialResult env (events w) addr = None"
    and o: "openStream env (ClientConn (length (events w))) (w\<lparr>events := events w @ [Dial addr]\<rparr>)
          = (Inr sender, w2)"
    using Fetch_succeeds [OF d o] Fetch_closer_health [OF Fetch_succeeds [OF d o]] by blast
  have 3: "health (snd (Fetch env addr w)) = health w
      \<and> filter is_health_event (events (snd (Fetch env addr w))) = filter is_health_event (events w)"
    if h: "fst (fst (Fetch env addr w)) = None"
  proof -
    obtain sd er w' where "Fetch env addr w = ((None, sd, er), w')"
      using h by (cases "Fetch env addr w") auto
    from Fetch_no_closer_health [OF this] this show ?thesis by simp
  qed
  have 4: "fst (fst (Fetch env addr w)) = None"
    if d: "dialResult env (events w) addr = Some err"
    using Fetch_dial_fails [OF d] by simp
  have 5: "fst (fst (Fetch env addr w)) = None"
    if d: "dialResult env (events w) addr = None"
    and o: "openStream env (ClientConn (length (events w))) (w\<lparr>events := events w @ [Dial addr]\<rparr>)
          = (Inl oerr, w2)"
    using Fetch_open_fails [OF d o] by simp
  have 6: "health w'' = health w" if "caller_run env ops (w, []) = (w'', [])"
    using caller_run_balance [OF that] by (simp add: fun_eq_iff)
  from 1 Close_health [of env d w] 3 4 5 6 show ?thesis by blast
qed

text \<open>
  At concrete inputs: two fetches from a downstream that accepts everything, each closed
  afterwards, bring the counters back to the 7 they started from; one such fetch alone
  takes both counters to 8; a fetch whose stream open fails returns no closer and
  leaves them at 7.
\<close>

theorem health_counters_balanced_witness:
  "caller_run
     \<lparr>dialResult = (\<lambda>h a. None), ingressBatchSenderResult = (\<lambda>h c. None),
      dopplerBatchSenderResult = (\<lambda>h c. None), closeAndRecvResult = (\<lambda>h s. None),
      connCloseResult = (\<lambda>h c. None)\<rparr>
     [OpFetch ''10.0.0.1:8082'', OpFetch ''10.0.0.2:8082'', OpClose 0, OpClose 0]
     (\<lparr>events = [], health = (\<lambda>name. 7)\<rparr>, [])
   = (\<lparr>events =
        [Dial ''10.0.0.1:8082'', IngressBatchSender 0, CloseAndRecv 1, IngressBatchSender 0,
         HealthInc ''dopplerConnections'', HealthInc ''dopplerV2Streams'',
         LogPrintf ''successfully established a stream to doppler 10.0.0.1:8082'',
         Dial ''10.0.0.2:8082'', IngressBatchSender 7, CloseAndRecv 8, IngressBatchSender 7,
         HealthInc ''dopplerConnections'', HealthInc ''dopplerV2Streams'',
         LogPrintf ''successfully established a stream to doppler 10.0.0.2:8082'',
         HealthDec ''dopplerConnections'', HealthDec ''dopplerV2Streams'', ConnClose 0,
         HealthDec ''dopplerConnections'', HealthDec ''dopplerV2Streams'', ConnClose 7],
       health = (\<lambda>name. 7)\<rparr>, [])
   \<and> health (snd (Fetch
     \<lparr>dialResult = (\<lambda>h a. None), ingressBatchSenderResult = (\<lambda>h c. None),
      dopplerBatchSenderResult = (\<lambda>h c. None), closeAndRecvResult = (\<lambda>h s. None),
      connCloseResult = (\<lambda>h c. None)\<rparr>
     ''10.0.0.1:8082'' \<lparr>events = [], health = (\<lambda>name. 7)\<rparr>))
     = (\<lambda>name. 7)(''dopplerConnections'' := 8, ''dopplerV2Streams'' := 8)
   \<and> fst (fst (Fetch
     \<lparr>dialResult = (\<lambda>h a. None),
      ingressBatchSenderResult = (\<lambda>h c. Some (StatusError Unavailable ''transport is closing'')),
      dopplerBatchSenderResult = (\<lambda>h c. None), closeAndRecvResult = (\<lambda>h s. None),
      connCloseResult = (\<lambda>h c. None)\<rparr>
     ''10.0.0.1:8082'' \<lparr>events = [], health = (\<lambda>name. 7)\<rparr>)) = None
   \<and> health (snd (Fetch
     \<lparr>dialResult = (\<lambda>h a. None),
      ingressBatchSenderResult = (\<lambda>h c. Some (StatusError Unavailable ''transport is closing'')),
      dopplerBatchSenderResult = (\<lambda>h c. None), closeAndRecvResult = (\<lambda>h s. None),
      connCloseResult = (\<lambda>h c. None)\<rparr>
     ''10.0.0.1:8082'' \<lparr>events = [], health = (\<lambda>name. 7)\<rparr>))
     = (\<lambda>name. 7)"
  (is "caller_run ?env ?ops (?w, []) = (?w', []) \<and> health (snd (Fetch ?env ?a ?w)) = ?h8
       \<and> fst (fst (Fetch ?bad ?a ?w)) = None \<and> health (snd (Fetch ?bad ?a ?w)) = ?h7")
proof -
  have ev: "events (fst (caller_run ?env ?ops (?w, []))) = events ?w'"
    and held: "snd (caller_run ?env ?ops (?w, [])) = []"
    by (simp_all add: Fetch_def grpc_Dial_def openStream_def Let_def Inc_def Dec_def Printf_def)
  then have run: "caller_run ?env ?ops (?w, []) = (fst (caller_run ?env ?ops (?w, [])), [])"
    by (metis prod.collapse)
  have "health (fst (caller_run ?env ?ops (?w, []))) = health ?w"
    using health_counters_balanced [where env = ?env and ops = ?ops and w = ?w
        and w'' = "fst (caller_run ?env ?ops (?w, []))"] run
    by blast
  with ev have "fst (caller_run ?env ?ops (?w, [])) = ?w'" by simp
  with held have a: "caller_run ?env ?ops (?w, []) = (?w', [])" by (metis prod.collapse)
  have o: "openStream ?env (ClientConn (length (events ?w))) (?w\<lparr>events := events ?w @ [Dial ?a]\<rparr>)
      = (Inr (BatchSenderClient Current 0 3),
         \<lparr>events = [Dial ?a, IngressBatchSender 0, CloseAndRecv 1, IngressBatchSender 0],
          health = (\<lambda>name. 7)\<rparr>)"
    by (simp add: openStream_def Let_def)
  have "\<exists>w'. Fetch ?env ?a ?w =
            ((Some (decrementingCloser (ClientConn 0)), Some (BatchSenderClient Current 0 3), None), w')
          \<and> health w' = ?h8"
    using health_counters_balanced [where env = ?env and addr = ?a and w = ?w
        and sender = "BatchSenderClient Current 0 3"
        and ?w2.0 = "\<lparr>events = [Dial ?a, IngressBatchSender 0, CloseAndRecv 1, IngressBatchSender 0],
          health = (\<lambda>name. 7)\<rparr>", THEN conjunct1] o
    by simp blast
  then have b: "health (snd (Fetch ?env ?a ?w)) = ?h8"
    by auto
  have o': "openStream ?bad (ClientConn (length (events ?w))) (?w\<lparr>events := events ?w @ [Dial ?a]\<rparr>)
      = (Inl (ErrorString ''error establishing ingestor stream to: transport is closing''),
         \<lparr>events = [Dial ?a, IngressBatchSender 0], health = (\<lambda>name. 7)\<rparr>)"
    by (simp add: openStream_def Let_def)
  note bad = health_counters_balanced [where env = ?bad and addr = ?a and w = ?w
        and oerr = "ErrorString ''error establishing ingestor stream to: transport is closing''"
        and ?w2.0 = "\<lparr>events = [Dial ?a, IngressBatchSender 0], health = (\<lambda>name. 7)\<rparr>"]
  have c1: "fst (fst (Fetch ?bad ?a ?w)) = None"
    using bad [THEN conjunct2, THEN conjunct2, THEN conjunct2, THEN conjunct2, THEN conjunct1] o'
    by simp
  have c2: "health (snd (Fetch ?bad ?a ?w)) = ?h7"
    using bad [THEN conjunct2, THEN conjunct2, THEN conjunct1] c1
    by simp
  note c = conjI [OF c1 c2]
  from a b c show ?thesis by blast
qed


section \<open>Properties of the client pool\<close>

lemma connManagers_loop_eq:
  "i \<le> 5 \<Longrightarrow> connManagers_loop connector draws i acc =
     acc @ map (\<lambda>j. NewConnManager connector (100000 + Int63n 1000 (draws j)) Second) [i..<5]"
proof (induction connector draws i acc rule: connManagers_loop.induct)
  case (1 connector draws i connManagers)
  show ?case
  proof (cases "i < 5")
    case True
    then have "[i..<5] = i # [i + 1..<5]" by (simp add: upt_conv_Cons)
    with 1 True show ?thesis by (subst connManagers_loop.simps) simp
  next
    case False
    with 1 show ?thesis by (subst connManagers_loop.simps) simp
  qed
qed

lemma initializePool_eq:
  "clientCreds a \<noteq> None \<Longrightarrow>
   initializePool a draws =
     Inr (New (map (\<lambda>j. NewConnManager
        (MakeGRPCConnector
          (if RouterAddrWithAZ (config a) \<noteq> ''''
           then [NewBalancer (RouterAddrWithAZ (config a)), NewBalancer (RouterAddr (config a))]
           else [NewBalancer (RouterAddr (config a))]))
        (100000 + Int63n 1000 (draws j)) Second) [0..<5]))"
  by (simp add: initializePool_def Let_def connManagers_loop_eq del: connManagers_loop.simps)

lemma Int63n_1000_range: "0 \<le> Int63n 1000 v \<and> Int63n 1000 v < 1000"
  by (simp add: Int63n_def)

text \<open>
  C6. Zone-preferred balancing. When the TLS client credentials are loaded (otherwise
  \<open>initializePool\<close> panics), the pool is built, it has managers, and the connector of
  every manager holds, in this order, the balancer of the zone-scoped router address and
  then the balancer of the general router address when the zone-scoped address is not the
  empty string, and the balancer of the general address alone when it is. The general
  balancer is there in both cases, last.
\<close>

theorem initializePool_zone_balancer_first:
  assumes "clientCreds a \<noteq> None"
  shows "\<exists>ms. initializePool a draws = Inr (New ms) \<and> ms \<noteq> [] \<and>
     (\<forall>m \<in> set ms. balancersOf m =
        (if RouterAddrWithAZ (config a) \<noteq> ''''
         then [NewBalancer (RouterAddrWithAZ (config a)), NewBalancer (RouterAddr (config a))]
         else [NewBalancer (RouterAddr (config a))]))"
  unfolding initializePool_eq [OF assms] by auto

theorem initializePool_zone_balancer_first_witness:
  "clientCreds \<lparr>config = \<lparr>RouterAddr = ''doppler:8082'', RouterAddrWithAZ = ''z1.doppler:8082''\<rparr>,
                clientCreds = Some ()\<rparr> \<noteq> None
   \<and> (\<exists>ms. initializePool
            \<lparr>config = \<lparr>RouterAddr = ''doppler:8082'', RouterAddrWithAZ = ''z1.doppler:8082''\<rparr>,
             clientCreds = Some ()\<rparr> (\<lambda>i. 0) = Inr (New ms) \<and> ms \<noteq> [] \<and>
        (\<forall>m \<in> set ms. balancersOf m = [NewBalancer ''z1.doppler:8082'', NewBalancer ''doppler:8082'']))
   \<and> (\<exists>ms. initializePool
            \<lparr>config = \<lparr>RouterAddr = ''doppler:8082'', RouterAddrWithAZ = ''''\<rparr>,
             clientCreds = Some ()\<rparr> (\<lambda>i. 0) = Inr (New ms) \<and> ms \<noteq> [] \<and>
        (\<forall>m \<in> set ms. balancersOf m = [NewBalancer ''doppler:8082'']))"
  using initializePool_zone_balancer_first [of
      "\<lparr>config = \<lparr>RouterAddr = ''doppler:8082'', RouterAddrWithAZ = ''z1.doppler:8082''\<rparr>,
        clientCreds = Some ()\<rparr>" "\<lambda>i. 0"]
    initializePool_zone_balancer_first [of
      "\<lparr>config = \<lparr>RouterAddr = ''doppler:8082'', RouterAddrWithAZ = ''''\<rparr>,
        clientCreds = Some ()\<rparr>" "\<lambda>i. 0"]
  by simp

text \<open>
  C7. Randomized rotation budget. When the TLS client credentials are loaded, the pool
  is built with exactly five managers. The message-count ceiling of manager \<open>i\<close> is
  100000 plus what the \<open>i\<close>-th call of \<open>rand.Int63n(1000)\<close> returns, each manager
  having a call of its own; that offset is at least 0 and below 1000. Every manager's
  refresh floor is one second (1000000000 nanoseconds) and its ceiling lies between
  100000 and 100999.
\<close>

theorem initializePool_rotation_budget:
  assumes "clientCreds a \<noteq> None"
  shows "\<exists>ms. initializePool a draws = Inr (New ms) \<and> length ms = 5 \<and>
     map messageCeiling ms = map (\<lambda>i. 100000 + Int63n 1000 (draws i)) [0..<5] \<and>
     (\<forall>i < 5. 0 \<le> Int63n 1000 (draws i) \<and> Int63n 1000 (draws i) < 1000) \<and>
     (\<forall>m \<in> set ms. refreshFloor m = 1000000000
                   \<and> 100000 \<le> messageCeiling m \<and> messageCeiling m \<le> 100999)"
proof -
  let ?ms = "map (\<lambda>j. NewConnManager
        (MakeGRPCConnector
          (if RouterAddrWithAZ (config a) \<noteq> ''''
           then [NewBalancer (RouterAddrWithAZ (config a)), NewBalancer (RouterAddr (config a))]
           else [NewBalancer (RouterAddr (config a))]))
        (100000 + Int63n 1000 (draws j)) Second) [0..<5]"
  have 1: "initializePool a draws = Inr (New ?ms)" by (rule initializePool_eq [OF assms])
  have 2: "length ?ms = 5" by simp
  have 3: "map messageCeiling ?ms = map (\<lambda>i. 100000 + Int63n 1000 (draws i)) [0..<5]"
    by (simp add: comp_def del: upt_Suc)
  have 4: "\<forall>i < 5. 0 \<le> Int63n 1000 (draws i) \<and> Int63n 1000 (draws i) < 1000"
    using Int63n_1000_range by simp
  have 5: "\<forall>m \<in> set ?ms. refreshFloor m = 1000000000
                   \<and> 100000 \<le> messageCeiling m \<and> messageCeiling m \<le> 100999"
  proof
    fix m assume "m \<in> set ?ms"
    then obtain j where "messageCeiling m = 100000 + Int63n 1000 (draws j)" "refreshFloor m = Second"
      by auto
    then show "refreshFloor m = 1000000000 \<and> 100000 \<le> messageCeiling m \<and> messageCeiling m \<le> 100999"
      using Int63n_1000_range [of "draws j"]
      by (simp add: Second_def Millisecond_def Microsecond_def Nanosecond_def)
  qed
  from 1 2 3 4 5 show ?thesis by blast
qed

theorem initializePool_rotation_budget_witness:
  "clientCreds \<lparr>config = \<lparr>RouterAddr = ''doppler:8082'', RouterAddrWithAZ = ''z1.doppler:8082''\<rparr>,
                clientCreds = Some ()\<rparr> \<noteq> None
   \<and> (\<exists>ms. initializePool
            \<lparr>config = \<lparr>RouterAddr = ''doppler:8082'', RouterAddrWithAZ = ''z1.doppler:8082''\<rparr>,
             clientCreds = Some ()\<rparr> (\<lambda>i. 123456789 * int i + 999) = Inr (New ms)
        \<and> map messageCeiling ms = [100999, 100788, 100577, 100366, 100155]
        \<and> (\<forall>m \<in> set ms. refreshFloor m = 1000000000))"
  using initializePool_rotation_budget [of
      "\<lparr>config = \<lparr>RouterAddr = ''doppler:8082'', RouterAddrWithAZ = ''z1.doppler:8082''\<rparr>,
        clientCreds = Some ()\<rparr>" "\<lambda>i. 123456789 * int i + 999"]
  by (auto simp: Int63n_def upt_conv_Cons)

end
